theory Spec2Isabelle
  imports
    Main
    "HOL-Library.Word"
    "HOL-Library.Sublist"
    "HOL-Library.Char_ord"
    "HOL-Library.List_Lexorder"
    "HOL-Library.Multiset"
begin

unbundle bit_operations_syntax

section \<open>Go strings\<close>

text \<open>
  A Go \<^verbatim>\<open>string\<close> is a sequence of bytes; it is modelled as \<^typ>\<open>string\<close>, a list of
  8-bit characters. \<^verbatim>\<open>len\<close> is \<^const>\<open>length\<close>, \<^verbatim>\<open>+\<close> is \<open>@\<close>, and comparison
  (\<^verbatim>\<open>==\<close>, \<^verbatim>\<open><\<close>, \<^verbatim>\<open>sort.Strings\<close>) is bytewise lexicographic, which is the order that
  \<open>Char_ord\<close> and \<open>List_Lexorder\<close> put on \<^typ>\<open>string\<close>.
\<close>

text \<open>
  \<^verbatim>\<open>strings.ToLower\<close>. On a string of ASCII bytes the library maps \<^verbatim>\<open>'A'..'Z'\<close> to
  \<^verbatim>\<open>'a'..'z'\<close> byte by byte and leaves every other byte alone; this is the function
  below. (On strings with bytes above 127 the library consults the Unicode case tables,
  which are outside the repository; the model leaves such bytes unchanged.)
\<close>

definition toLowerByte :: "char \<Rightarrow> char" where
  "toLowerByte c =
     (if 65 \<le> (of_char c :: nat) \<and> (of_char c :: nat) \<le> 90
      then char_of ((of_char c :: nat) + 32) else c)"

definition ToLower :: "string \<Rightarrow> string" where
  "ToLower s = map toLowerByte s"



section \<open>The keyword filter (internal/crawler/filter.go)\<close>

text \<open>
  The struct \<^verbatim>\<open>KeywordFilter\<close>. The mutex is not modelled: every method takes the lock for
  its whole body, so each method is one atomic step on the three fields.
\<close>

record KeywordFilter =
  keywords_f :: "string list"
  blacklist :: "string list"
  categoryMap :: "string \<rightharpoonup> string"


text \<open>\<^verbatim>\<open>containsKeyword\<close>: the loop returns true at the first equal entry.\<close>

fun containsLoop :: "string list \<Rightarrow> string \<Rightarrow> bool" where
  "containsLoop [] keyword = False"
| "containsLoop (k # ks) keyword = (if k = keyword then True else containsLoop ks keyword)"


definition containsBlacklistKeyword :: "KeywordFilter \<Rightarrow> string \<Rightarrow> bool" where
  "containsBlacklistKeyword kf keyword = containsLoop (blacklist kf) keyword"



definition AddToBlacklist :: "KeywordFilter \<Rightarrow> string \<Rightarrow> KeywordFilter" where
  "AddToBlacklist kf keyword0 =
     (let keyword = ToLower keyword0 in
      if \<not> containsBlacklistKeyword kf keyword
      then kf\<lparr>blacklist := blacklist kf @ [keyword]\<rparr>
      else kf)"

fun AddBlacklist :: "KeywordFilter \<Rightarrow> string list \<Rightarrow> KeywordFilter" where
  "AddBlacklist kf [] = kf"
| "AddBlacklist kf (keyword # rest) = AddBlacklist (AddToBlacklist kf keyword) rest"

text \<open>
  The removal loops look for the first index \<^verbatim>\<open>i\<close> with \<^verbatim>\<open>k == keyword\<close>, splice the slice
  as \<^verbatim>\<open>append(s[:i], s[i+1:]...)\<close> and break.
\<close>

fun firstIndex :: "string list \<Rightarrow> string \<Rightarrow> nat option" where
  "firstIndex [] keyword = None"
| "firstIndex (k # ks) keyword =
     (if k = keyword then Some 0 else map_option Suc (firstIndex ks keyword))"


definition RemoveFromBlacklist :: "KeywordFilter \<Rightarrow> string \<Rightarrow> KeywordFilter" where
  "RemoveFromBlacklist kf keyword0 =
     (let keyword = ToLower keyword0 in
      case firstIndex (blacklist kf) keyword of
        None \<Rightarrow> kf
      | Some i \<Rightarrow> kf\<lparr>blacklist := take i (blacklist kf) @ drop (i + 1) (blacklist kf)\<rparr>)"






section \<open>The automatic classifier (categorizeContent)\<close>

























section \<open>The DHT engine (package dht)\<close>

text \<open>
  Errors and panics of the engine. \<open>ErrHexDecode\<close> stands for the errors of
  \<^verbatim>\<open>hex.DecodeString\<close>; \<open>PanicSliceBounds\<close> is the run-time panic of a slice
  expression whose bound exceeds the length of the string.
\<close>

datatype dht_error =
    ErrNotReady
  | ErrOnGetPeersResponseNotSet
  | ErrHexDecode
  | PanicSliceBounds

definition StandardMode :: int where
  "StandardMode = 0"

definition CrawlMode :: int where
  "CrawlMode = 1"

text \<open>A node of the routing table: its 20-byte identifier and its UDP address.\<close>

record node =
  node_id :: string
  node_addr :: string

text \<open>
  The fields of \<^verbatim>\<open>DHT\<close> (and of the embedded \<^verbatim>\<open>Config\<close>) that the functions below read.
  \<open>OnGetPeersResponse\<close> records whether the callback is set (not \<^verbatim>\<open>nil\<close>);
  \<open>self_id\<close> is \<^verbatim>\<open>dht.node.id.RawString()\<close>; \<open>routingTable\<close> lists the nodes the
  routing table holds, the most recently active first; \<open>transactions\<close> is
  \<^verbatim>\<open>dht.transactionManager.len()\<close>.
\<close>

record DHT =
  K :: int
  Mode :: int
  PrimeNodes :: "string list"
  OnGetPeersResponse :: bool
  Ready :: bool
  self_id :: string
  routingTable :: "node list"
  transactions :: nat

text \<open>What the engine hands to the transaction manager or starts.\<close>

datatype dht_effect =
    FindNodeQuery node string
  | GetPeersQuery node string
  | StartFresh






text \<open>
  \<^verbatim>\<open>join\<close>: one \<^verbatim>\<open>find_node\<close> for the engine's own identifier to every prime node whose
  address resolves. \<^verbatim>\<open>net.ResolveUDPAddr\<close> is the parameter \<open>resolve\<close>.
\<close>

fun join :: "(string \<Rightarrow> string option) \<Rightarrow> DHT \<Rightarrow> string list \<Rightarrow> dht_effect list" where
  "join resolve dht [] = []"
| "join resolve dht (a # rest) =
     (case resolve a of
        None \<Rightarrow> join resolve dht rest
      | Some raddr \<Rightarrow>
          FindNodeQuery \<lparr>node_id = [], node_addr = raddr\<rparr> (self_id dht) # join resolve dht rest)"

text \<open>
  The \<^verbatim>\<open>case <-tick\<close> branch of the \<^verbatim>\<open>select\<close> in \<^verbatim>\<open>Run\<close>: what one tick of
  \<^verbatim>\<open>CheckKBucketPeriod\<close> makes the engine do.
\<close>

definition onTick :: "(string \<Rightarrow> string option) \<Rightarrow> DHT \<Rightarrow> dht_effect list" where
  "onTick resolve dht =
     (if length (routingTable dht) = 0 then join resolve dht (PrimeNodes dht)
      else if transactions dht = 0 then [StartFresh]
      else [])"

text \<open>\<^verbatim>\<open>hex.DecodeString\<close>: two hexadecimal digits, of either case, for every byte.\<close>

definition fromHexChar :: "char \<Rightarrow> nat option" where
  "fromHexChar c =
     (let n = (of_char c :: nat) in
      if 48 \<le> n \<and> n \<le> 57 then Some (n - 48)
      else if 97 \<le> n \<and> n \<le> 102 then Some (n - 97 + 10)
      else if 65 \<le> n \<and> n \<le> 70 then Some (n - 65 + 10)
      else None)"

fun hexDecodeString :: "string \<Rightarrow> dht_error + string" where
  "hexDecodeString [] = Inr []"
| "hexDecodeString [c] = Inl ErrHexDecode"
| "hexDecodeString (a # b # rest) =
     (case (fromHexChar a, fromHexChar b) of
        (Some x, Some y) \<Rightarrow>
          (case hexDecodeString rest of
             Inl e \<Rightarrow> Inl e
           | Inr bytes \<Rightarrow> Inr (char_of (16 * x + y) # bytes))
      | _ \<Rightarrow> Inl ErrHexDecode)"

text \<open>
  Modelled from the spec: \<^verbatim>\<open>newBitmapFromString\<close>, whose code is not among the sources.
  The spec has identifiers as 160-bit strings compared by XOR distance; an identifier is
  read as a big-endian number.
\<close>

definition newBitmapFromString :: "string \<Rightarrow> int" where
  "newBitmapFromString s = foldl (\<lambda>acc c. 256 * acc + of_char c) 0 s"

text \<open>
  Modelled from the spec: the XOR distance of two identifiers (the bitmap arithmetic is
  not among the sources).
\<close>

definition xorDistance :: "int \<Rightarrow> int \<Rightarrow> int" where
  "xorDistance a b = a XOR b"

text \<open>
  Modelled from the spec: \<^verbatim>\<open>routingTable.GetNeighbors\<close>, whose code is not among the
  sources. The spec says that \<open>neighbors(target, n)\<close> returns the \<open>n\<close> nodes with the
  smallest XOR distance to the target, ties broken by recency: the table (most recent
  first) is sorted by distance with a stable sort and the first \<open>n\<close> nodes are taken.
\<close>

definition GetNeighbors :: "node list \<Rightarrow> int \<Rightarrow> nat \<Rightarrow> node list" where
  "GetNeighbors table target n =
     take n (sort_key (\<lambda>no. xorDistance (newBitmapFromString (node_id no)) target) table)"

text \<open>
  \<^verbatim>\<open>func (dht *DHT) GetPeers(infoHash string) error\<close>. The result is the error
  returned, or the \<^verbatim>\<open>get_peers\<close> queries handed to the transaction manager before
  \<^verbatim>\<open>nil\<close> is returned.
\<close>

definition GetPeers :: "DHT \<Rightarrow> string \<Rightarrow> dht_error + dht_effect list" where
  "GetPeers dht infoHash0 =
     (if \<not> Ready dht then Inl ErrNotReady
      else if \<not> OnGetPeersResponse dht then Inl ErrOnGetPeersResponseNotSet
      else (case (if length infoHash0 = 40 then hexDecodeString infoHash0 else Inr infoHash0) of
              Inl err \<Rightarrow> Inl err
            | Inr infoHash \<Rightarrow>
                (let neighbors = GetNeighbors (routingTable dht) (newBitmapFromString infoHash)
                                   (length (routingTable dht))
                 in Inr (map (\<lambda>no. GetPeersQuery no infoHash) neighbors))))"

section \<open>The canonical bencode encoder and the info-hash\<close>

text \<open>
  A value of the dynamic type \<^verbatim>\<open>interface{}\<close>, by the cases of the type switch in
  \<^verbatim>\<open>writeBencodedValue\<close>: a \<^verbatim>\<open>string\<close>, an \<^verbatim>\<open>int\<close> (64 bits: the build targets amd64),
  an \<^verbatim>\<open>int64\<close>, a \<^verbatim>\<open>[]interface{}\<close>, a \<^verbatim>\<open>map[string]interface{}\<close>, and \<open>BOther\<close> for a
  value of any other type (\<^verbatim>\<open>nil\<close> among them), which the \<^verbatim>\<open>default\<close> branch refuses.

  A Go map has one value for each key and no order; \<^verbatim>\<open>range\<close> visits its entries in an
  order that is not specified. A map is modelled as the list of its entries in the order
  \<^verbatim>\<open>range\<close> yields them; the keys of such a list are pairwise different.
\<close>

datatype bvalue =
    BString string
  | BInt "64 word"
  | BInt64 "64 word"
  | BList "bvalue list"
  | BDict "(string \<times> bvalue) list"
  | BOther

datatype enc_error = ErrUnsupportedType

text \<open>\<^verbatim>\<open>dict[k]\<close>: the value stored under the key, \<^verbatim>\<open>nil\<close> when there is none.\<close>

definition index_map :: "(string \<times> bvalue) list \<Rightarrow> string \<Rightarrow> bvalue" where
  "index_map dict k = (case map_of dict k of Some v \<Rightarrow> v | None \<Rightarrow> BOther)"

text \<open>
  \<^verbatim>\<open>strconv.Itoa\<close> and \<^verbatim>\<open>strconv.FormatInt(v, 10)\<close>: the decimal digits, most significant
  first, after a minus sign when the number is negative.
\<close>

definition digitChar :: "nat \<Rightarrow> char" where
  "digitChar d = char_of (48 + d)"

fun formatUint :: "nat \<Rightarrow> string" where
  "formatUint n = (if n < 10 then [digitChar n] else formatUint (n div 10) @ [digitChar (n mod 10)])"

declare formatUint.simps [simp del]

definition FormatInt :: "int \<Rightarrow> string" where
  "FormatInt i = (if i < 0 then CHR ''-'' # formatUint (nat (- i)) else formatUint (nat i))"

definition Itoa :: "int \<Rightarrow> string" where
  "Itoa i = FormatInt i"

text \<open>
  The writer of \<^verbatim>\<open>calculateInfoHash\<close> is a \<^verbatim>\<open>bytes.Buffer\<close>, whose \<^verbatim>\<open>Write\<close> appends and
  never fails. Each function returns the bytes it has written when it returns \<^verbatim>\<open>nil\<close>,
  and the error otherwise. \<open>writeItems\<close> is the loop over the elements of a list,
  \<open>writeEntries\<close> the loop over the sorted keys of a dictionary.
\<close>

function writeBencodedValue :: "bvalue \<Rightarrow> enc_error + string"
  and writeItems :: "bvalue list \<Rightarrow> enc_error + string"
  and writeBencodedDict :: "(string \<times> bvalue) list \<Rightarrow> enc_error + string"
  and writeEntries :: "(string \<times> bvalue) list \<Rightarrow> string list \<Rightarrow> enc_error + string"
where
  "writeBencodedValue (BString v) = Inr (Itoa (int (length v)) @ '':'' @ v)"
| "writeBencodedValue (BInt v) = Inr (''i'' @ Itoa (sint v) @ ''e'')"
| "writeBencodedValue (BInt64 v) = Inr (''i'' @ FormatInt (sint v) @ ''e'')"
| "writeBencodedValue (BList v) =
     (case writeItems v of Inl err \<Rightarrow> Inl err | Inr items \<Rightarrow> Inr (''l'' @ items @ ''e''))"
| "writeBencodedValue (BDict v) = writeBencodedDict v"
| "writeBencodedValue BOther = Inl ErrUnsupportedType"
| "writeItems [] = Inr []"
| "writeItems (item # rest) =
     (case writeBencodedValue item of
        Inl err \<Rightarrow> Inl err
      | Inr b \<Rightarrow> (case writeItems rest of Inl err \<Rightarrow> Inl err | Inr bs \<Rightarrow> Inr (b @ bs)))"
| "writeBencodedDict dict =
     (let keys = sort (map fst dict) in
      case writeEntries dict keys of
        Inl err \<Rightarrow> Inl err
      | Inr entries \<Rightarrow> Inr (''d'' @ entries @ ''e''))"
| "writeEntries dict [] = Inr []"
| "writeEntries dict (k # ks) =
     (case writeBencodedValue (index_map dict k) of
        Inl err \<Rightarrow> Inl err
      | Inr b \<Rightarrow>
          (case writeEntries dict ks of
             Inl err \<Rightarrow> Inl err
           | Inr bs \<Rightarrow> Inr (Itoa (int (length k)) @ '':'' @ k @ b @ bs)))"
  by pat_completeness auto
termination
proof (relation "measures
    [\<lambda>x. case x of
        Inl (Inl v) \<Rightarrow> 3 * size v
      | Inl (Inr vs) \<Rightarrow> 3 * size_list size vs + 1
      | Inr (Inl d) \<Rightarrow> 3 * size_list (\<lambda>p. size (snd p)) d + 2
      | Inr (Inr (d, ks)) \<Rightarrow> 3 * size_list (\<lambda>p. size (snd p)) d + 1,
     \<lambda>x. case x of
        Inr (Inr (d, ks)) \<Rightarrow> length ks
      | _ \<Rightarrow> 0]", goal_cases)
  case 1
  show ?case by simp
next
  case (2 v)
  show ?case by simp
next
  case (3 v)
  have "size_list (\<lambda>p. size (snd p)) v \<le> size_list (size_prod (\<lambda>x. 0) size) v"
    by (induction v) auto
  then show ?case by simp
next
  case (4 item rest)
  show ?case by simp
next
  case (5 item rest x)
  show ?case by simp
next
  case (6 dict x)
  show ?case by simp
next
  case (7 dict k ks)
  have "size (index_map dict k) \<le> size_list (\<lambda>p. size (snd p)) dict"
  proof (cases "map_of dict k")
    case None
    then show ?thesis by (simp add: index_map_def)
  next
    case (Some v)
    then have "(k, v) \<in> set dict" by (rule map_of_SomeD)
    then have "size v \<le> size_list (\<lambda>p. size (snd p)) dict"
      by (induction dict) auto
    with Some show ?thesis by (simp add: index_map_def)
  qed
  then show ?case by simp
next
  case (8 dict k ks x)
  show ?case by simp
qed

text \<open>
  Two notions that the statements about the encoder use. \<open>decimalValue\<close> reads a string
  of decimal digits as a number. \<open>bytesLess\<close> is the comparison of two strings byte by
  byte: the first differing byte decides, and a proper prefix is smaller.
\<close>

definition decimalValue :: "string \<Rightarrow> nat" where
  "decimalValue s = foldl (\<lambda>acc c. 10 * acc + (of_char c - 48)) 0 s"

fun bytesLess :: "string \<Rightarrow> string \<Rightarrow> bool" where
  "bytesLess [] [] = False"
| "bytesLess [] (y # ys) = True"
| "bytesLess (x # xs) [] = False"
| "bytesLess (x # xs) (y # ys) =
     ((of_char x :: nat) < of_char y \<or> (x = y \<and> bytesLess xs ys))"

text \<open>
  Two values are the same up to the iteration order of their maps, at any depth, when
  they are equal, or lists of such values, or maps with the same keys whose values under
  each key are such values.
\<close>

inductive reordered :: "bvalue \<Rightarrow> bvalue \<Rightarrow> bool" where
  same: "reordered v v"
| list: "list_all2 reordered vs ws \<Longrightarrow> reordered (BList vs) (BList ws)"
| dict: "distinct (map fst d) \<Longrightarrow> distinct (map fst d') \<Longrightarrow>
         set (map fst d') = set (map fst d) \<Longrightarrow>
         (\<And>k. k \<in> set (map fst d) \<Longrightarrow> reordered (index_map d k) (index_map d' k)) \<Longrightarrow>
         reordered (BDict d) (BDict d')"

subsection \<open>SHA-1 and hexadecimal\<close>

text \<open>
  \<^verbatim>\<open>crypto/sha1\<close> is part of the Go library. \<open>SHA1\<close> below is the function of FIPS 180:
  the message is padded with the byte \<open>0x80\<close>, zero bytes up to 56 modulo 64, and the
  length in bits as 8 bytes; the blocks of 64 bytes are absorbed one after the other into
  a state of five 32-bit words; the digest is the state as 20 bytes. All words are
  big-endian.
\<close>

type_synonym sha1_state = "32 word \<times> 32 word \<times> 32 word \<times> 32 word \<times> 32 word"

definition be32 :: "string \<Rightarrow> 32 word" where
  "be32 bs = foldl (\<lambda>acc c. push_bit 8 acc OR of_char c) 0 bs"

text \<open>The words of a block: 16 of them for 64 bytes.\<close>

fun words16 :: "string \<Rightarrow> 32 word list" where
  "words16 (b0 # b1 # b2 # b3 # rest) = be32 [b0, b1, b2, b3] # words16 rest"
| "words16 rest = []"

text \<open>\<^verbatim>\<open>bits.RotateLeft32(x, k)\<close> for \<open>0 < k < 32\<close>.\<close>

definition RotateLeft32 :: "32 word \<Rightarrow> nat \<Rightarrow> 32 word" where
  "RotateLeft32 x k = push_bit k x OR drop_bit (32 - k) x"

definition sha1_f :: "nat \<Rightarrow> 32 word \<Rightarrow> 32 word \<Rightarrow> 32 word \<Rightarrow> 32 word" where
  "sha1_f t b c d =
     (if t < 20 then (b AND c) OR (NOT b AND d)
      else if t < 40 then b XOR c XOR d
      else if t < 60 then (b AND c) OR (b AND d) OR (c AND d)
      else b XOR c XOR d)"

definition sha1_k :: "nat \<Rightarrow> 32 word" where
  "sha1_k t =
     (if t < 20 then 0x5A827999
      else if t < 40 then 0x6ED9EBA1
      else if t < 60 then 0x8F1BBCDC
      else 0xCA62C1D6)"

text \<open>
  The rounds \<open>t, \<dots>, n - 1\<close> on one block. \<open>win\<close> holds the 16 words
  \<open>W\<^sub>t \<dots> W\<^sub>t\<^sub>+\<^sub>1\<^sub>5\<close> of the message schedule: round \<open>t\<close> uses its first word, and the
  window moves on by the word
  \<open>W\<^sub>t\<^sub>+\<^sub>1\<^sub>6 = (W\<^sub>t\<^sub>+\<^sub>1\<^sub>3 XOR W\<^sub>t\<^sub>+\<^sub>8 XOR W\<^sub>t\<^sub>+\<^sub>2 XOR W\<^sub>t) rotated left by 1\<close>.
  The result is the window and the state after round \<open>n - 1\<close>.
\<close>

function rounds :: "nat \<Rightarrow> nat \<Rightarrow> 32 word list \<Rightarrow> sha1_state \<Rightarrow> 32 word list \<times> sha1_state" where
  "rounds t n win (a, b, c, d, e) =
     (if t < n
      then rounds (t + 1) n
             (tl win @ [RotateLeft32 (win ! 13 XOR win ! 8 XOR win ! 2 XOR win ! 0) 1])
             (RotateLeft32 a 5 + sha1_f t b c d + e + sha1_k t + win ! 0, a, RotateLeft32 b 30, c, d)
      else (win, (a, b, c, d, e)))"
  by pat_completeness auto
termination
  by (relation "measure (\<lambda>(t, n, win, s). n - t)") auto

declare rounds.simps [simp del]

fun add_state :: "sha1_state \<Rightarrow> sha1_state \<Rightarrow> sha1_state" where
  "add_state (h0, h1, h2, h3, h4) (a, b, c, d, e) = (h0 + a, h1 + b, h2 + c, h3 + d, h4 + e)"

definition sha1_block :: "sha1_state \<Rightarrow> string \<Rightarrow> sha1_state" where
  "sha1_block s blk = add_state s (snd (rounds 0 80 (words16 blk) s))"

definition sha1_init :: sha1_state where
  "sha1_init = (0x67452301, 0xEFCDAB89, 0x98BADCFE, 0x10325476, 0xC3D2E1F0)"

text \<open>Absorbing whole blocks; what is left over is shorter than a block.\<close>

function absorb :: "sha1_state \<Rightarrow> string \<Rightarrow> sha1_state \<times> string" where
  "absorb s bs = (if 64 \<le> length bs then absorb (sha1_block s (take 64 bs)) (drop 64 bs) else (s, bs))"
  by pat_completeness auto
termination
  by (relation "measure (\<lambda>(s, bs). length bs)") auto

declare absorb.simps [simp del]

definition be_bytes32 :: "32 word \<Rightarrow> string" where
  "be_bytes32 w = [char_of (uint (drop_bit 24 w)), char_of (uint (drop_bit 16 w)), char_of (uint (drop_bit 8 w)), char_of (uint w)]"

definition be_bytes64 :: "64 word \<Rightarrow> string" where
  "be_bytes64 w =
     [char_of (uint (drop_bit 56 w)), char_of (uint (drop_bit 48 w)), char_of (uint (drop_bit 40 w)), char_of (uint (drop_bit 32 w)),
      char_of (uint (drop_bit 24 w)), char_of (uint (drop_bit 16 w)), char_of (uint (drop_bit 8 w)), char_of (uint w)]"

definition sha1_padding :: "nat \<Rightarrow> string" where
  "sha1_padding len =
     CHR 0x80 # replicate ((119 - len mod 64) mod 64) (CHR 0x00) @ be_bytes64 (8 * of_nat len)"

fun sha1_output :: "sha1_state \<Rightarrow> string" where
  "sha1_output (h0, h1, h2, h3, h4) =
     be_bytes32 h0 @ be_bytes32 h1 @ be_bytes32 h2 @ be_bytes32 h3 @ be_bytes32 h4"

definition SHA1 :: "string \<Rightarrow> string" where
  "SHA1 msg = sha1_output (fst (absorb sha1_init (msg @ sha1_padding (length msg))))"

text \<open>
  The hasher object of \<^verbatim>\<open>crypto/sha1\<close>, as \<^verbatim>\<open>calculateInfoHash\<close> uses it: \<^verbatim>\<open>New\<close>,
  \<^verbatim>\<open>Write\<close>, which absorbs the whole blocks of what has been written and keeps the rest,
  and \<^verbatim>\<open>Sum(b)\<close>, which pads what is pending and appends the digest to \<^verbatim>\<open>b\<close>.
\<close>

record sha1_digest =
  dig_h :: sha1_state
  dig_x :: string
  dig_len :: nat

definition sha1_New :: sha1_digest where
  "sha1_New = \<lparr>dig_h = sha1_init, dig_x = [], dig_len = 0\<rparr>"

definition sha1_Write :: "sha1_digest \<Rightarrow> string \<Rightarrow> sha1_digest" where
  "sha1_Write d p =
     (case absorb (dig_h d) (dig_x d @ p) of
        (h', rest) \<Rightarrow> \<lparr>dig_h = h', dig_x = rest, dig_len = dig_len d + length p\<rparr>)"

definition sha1_Sum :: "sha1_digest \<Rightarrow> string \<Rightarrow> string" where
  "sha1_Sum d b =
     b @ sha1_output (fst (absorb (dig_h d) (dig_x d @ sha1_padding (dig_len d))))"

text \<open>\<^verbatim>\<open>hex.EncodeToString\<close>: two digits of \<^verbatim>\<open>0123456789abcdef\<close> for every byte.\<close>

definition hextable :: string where
  "hextable = ''0123456789abcdef''"

definition hexEncodeToString :: "string \<Rightarrow> string" where
  "hexEncodeToString src =
     concat (map (\<lambda>c. [hextable ! ((of_char c :: nat) div 16), hextable ! ((of_char c :: nat) mod 16)]) src)"

text \<open>\<^verbatim>\<open>calculateInfoHash\<close>\<close>

definition calculateInfoHash :: "(string \<times> bvalue) list \<Rightarrow> enc_error + string" where
  "calculateInfoHash info =
     (case writeBencodedDict info of
        Inl err \<Rightarrow> Inl err
      | Inr buffer \<Rightarrow>
          (let hasher = sha1_Write sha1_New buffer
           in Inr (hexEncodeToString (sha1_Sum hasher []))))"

section \<open>The ingest pipeline (package crawler)\<close>

subsection \<open>Time\<close>

text \<open>
  A \<^verbatim>\<open>time.Time\<close> is read through its seconds since January 1 of year 1 (a 64-bit
  integer) and its nanoseconds within the second; the zero value has both equal to 0.
  \<^verbatim>\<open>time.Unix(sec, 0)\<close> adds the 62135596800 seconds between year 1 and 1970.
\<close>

record Time =
  t_sec :: "64 word"
  t_nsec :: nat


definition IsZero :: "Time \<Rightarrow> bool" where
  "IsZero t = (t_sec t = 0 \<and> t_nsec t = 0)"

definition Unix :: "64 word \<Rightarrow> Time" where
  "Unix s = \<lparr>t_sec = s + 62135596800, t_nsec = 0\<rparr>"

subsection \<open>Metadata and records\<close>




datatype ingest_error =
    ErrInvalidFormat
  | ErrNoName
  | ErrDecode
  | ErrStore

subsection \<open>convertToTorrentMetadata\<close>












subsection \<open>convertMetadataToTorrent\<close>





subsection \<open>The store (package database)\<close>








subsection \<open>processMetadata\<close>






section \<open>Facts about strings\<close>



section \<open>The filter\<close>









subsection \<open>The keyword list stays lowercase and free of duplicates\<close>

lemma firstIndex_Some: "firstIndex ks k = Some i \<Longrightarrow> i < length ks \<and> ks ! i = k"
  by (induction ks arbitrary: i) (auto split: if_splits)








section \<open>The classifier\<close>











section \<open>The DHT engine\<close>

lemma join_map_filter:
  "join resolve dht ps =
     map (\<lambda>raddr. FindNodeQuery \<lparr>node_id = [], node_addr = raddr\<rparr> (self_id dht))
       (List.map_filter resolve ps)"
  by (induction ps) (auto simp: List.map_filter_simps split: option.splits)

text \<open>
  C8, as the code has it. On a tick of \<^verbatim>\<open>CheckKBucketPeriod\<close> the engine joins again
  through the prime nodes when the routing table is empty (one \<^verbatim>\<open>find_node\<close> for its own
  identifier to every prime node whose address resolves); when the table is not empty it
  starts \<^verbatim>\<open>routingTable.Fresh()\<close> only if no transaction is pending, and does nothing
  on that tick otherwise.
\<close>

theorem onTick_spec:
  "(routingTable dht = [] \<longrightarrow>
      onTick resolve dht =
        map (\<lambda>raddr. FindNodeQuery \<lparr>node_id = [], node_addr = raddr\<rparr> (self_id dht))
          (List.map_filter resolve (PrimeNodes dht)))
   \<and> (routingTable dht \<noteq> [] \<and> transactions dht = 0 \<longrightarrow> onTick resolve dht = [StartFresh])
   \<and> (routingTable dht \<noteq> [] \<and> transactions dht \<noteq> 0 \<longrightarrow> onTick resolve dht = [])"
  by (simp add: onTick_def join_map_filter)

text \<open>
  An instance of each of the three cases, with one prime node whose address resolves.
\<close>

theorem onTick_spec_witness:
  "onTick Some \<lparr>K = 8, Mode = CrawlMode, PrimeNodes = [''router.bittorrent.com:6881''],
       OnGetPeersResponse = False, Ready = True, self_id = ''ABCDEFGHIJKLMNOPQRST'',
       routingTable = [], transactions = 0\<rparr>
     = [FindNodeQuery \<lparr>node_id = [], node_addr = ''router.bittorrent.com:6881''\<rparr> ''ABCDEFGHIJKLMNOPQRST'']
   \<and> onTick Some \<lparr>K = 8, Mode = CrawlMode, PrimeNodes = [''router.bittorrent.com:6881''],
       OnGetPeersResponse = False, Ready = True, self_id = ''ABCDEFGHIJKLMNOPQRST'',
       routingTable = [\<lparr>node_id = ''aaaaaaaaaaaaaaaaaaaa'', node_addr = ''1.2.3.4:6881''\<rparr>],
       transactions = 0\<rparr>
     = [StartFresh]
   \<and> onTick Some \<lparr>K = 8, Mode = CrawlMode, PrimeNodes = [''router.bittorrent.com:6881''],
       OnGetPeersResponse = False, Ready = True, self_id = ''ABCDEFGHIJKLMNOPQRST'',
       routingTable = [\<lparr>node_id = ''aaaaaaaaaaaaaaaaaaaa'', node_addr = ''1.2.3.4:6881''\<rparr>],
       transactions = 3\<rparr>
     = []"
  using onTick_spec [of "\<lparr>K = 8, Mode = CrawlMode, PrimeNodes = [''router.bittorrent.com:6881''],
       OnGetPeersResponse = False, Ready = True, self_id = ''ABCDEFGHIJKLMNOPQRST'',
       routingTable = [], transactions = 0\<rparr>" Some]
    onTick_spec [of "\<lparr>K = 8, Mode = CrawlMode, PrimeNodes = [''router.bittorrent.com:6881''],
       OnGetPeersResponse = False, Ready = True, self_id = ''ABCDEFGHIJKLMNOPQRST'',
       routingTable = [\<lparr>node_id = ''aaaaaaaaaaaaaaaaaaaa'', node_addr = ''1.2.3.4:6881''\<rparr>],
       transactions = 0\<rparr>" Some]
    onTick_spec [of "\<lparr>K = 8, Mode = CrawlMode, PrimeNodes = [''router.bittorrent.com:6881''],
       OnGetPeersResponse = False, Ready = True, self_id = ''ABCDEFGHIJKLMNOPQRST'',
       routingTable = [\<lparr>node_id = ''aaaaaaaaaaaaaaaaaaaa'', node_addr = ''1.2.3.4:6881''\<rparr>],
       transactions = 3\<rparr>" Some]
  by (simp add: List.map_filter_simps)

text \<open>
  The sentence of C8 as it was written has \<^verbatim>\<open>Fresh()\<close> called on every tick with a
  non-empty routing table. With one node in the table and three transactions pending,
  the tick does nothing.
\<close>

theorem onTick_pending_counterexample:
  "routingTable \<lparr>K = 8, Mode = CrawlMode, PrimeNodes = [''router.bittorrent.com:6881''],
       OnGetPeersResponse = False, Ready = True, self_id = ''ABCDEFGHIJKLMNOPQRST'',
       routingTable = [\<lparr>node_id = ''aaaaaaaaaaaaaaaaaaaa'', node_addr = ''1.2.3.4:6881''\<rparr>],
       transactions = 3\<rparr> \<noteq> []
   \<and> onTick Some \<lparr>K = 8, Mode = CrawlMode, PrimeNodes = [''router.bittorrent.com:6881''],
       OnGetPeersResponse = False, Ready = True, self_id = ''ABCDEFGHIJKLMNOPQRST'',
       routingTable = [\<lparr>node_id = ''aaaaaaaaaaaaaaaaaaaa'', node_addr = ''1.2.3.4:6881''\<rparr>],
       transactions = 3\<rparr> = []"
  by (simp add: onTick_def)





lemma hexDecodeString_error: "hexDecodeString s = Inl e \<Longrightarrow> e = ErrHexDecode"
  by (induction s arbitrary: e rule: hexDecodeString.induct)
     (auto split: option.splits sum.splits)

lemma GetNeighbors_all:
  "mset (GetNeighbors table target (length table)) = mset table"
  by (simp add: GetNeighbors_def)

lemma GetNeighbors_sorted:
  "sorted (map (\<lambda>no. xorDistance (newBitmapFromString (node_id no)) target) (GetNeighbors table target n))"
  unfolding GetNeighbors_def
  by (simp add: take_map [symmetric] sorted_wrt_take del: take_map)

text \<open>
  C5, as the code has it. When the engine is ready, \<^const>\<open>GetPeers\<close> fails with
  \<open>ErrOnGetPeersResponseNotSet\<close> exactly when the callback is not set. With the
  callback set, an info-hash of 40 characters that is not hexadecimal makes it return the
  decoding error and send nothing; otherwise it sends one \<^verbatim>\<open>get_peers\<close> query to every
  node that the neighbour query returns when asked for as many nodes as the routing table
  holds: these are all the nodes of the table, nearest to the info-hash first. The
  number \<open>K\<close> plays no part.
\<close>

theorem GetPeers_spec:
  assumes "Ready dht"
  shows "(GetPeers dht infoHash = Inl ErrOnGetPeersResponseNotSet \<longleftrightarrow> \<not> OnGetPeersResponse dht)
   \<and> (OnGetPeersResponse dht
        \<and> (if length infoHash = 40 then hexDecodeString infoHash else Inr infoHash) = Inl err \<longrightarrow>
          GetPeers dht infoHash = Inl err)
   \<and> (OnGetPeersResponse dht
        \<and> (if length infoHash = 40 then hexDecodeString infoHash else Inr infoHash) = Inr raw \<longrightarrow>
          (\<exists>neighbors.
              GetPeers dht infoHash = Inr (map (\<lambda>no. GetPeersQuery no raw) neighbors)
            \<and> neighbors = GetNeighbors (routingTable dht) (newBitmapFromString raw)
                            (length (routingTable dht))
            \<and> mset neighbors = mset (routingTable dht)
            \<and> sorted (map (\<lambda>no. xorDistance (newBitmapFromString (node_id no))
                                   (newBitmapFromString raw)) neighbors)))"
proof (intro conjI impI)
  show "GetPeers dht infoHash = Inl ErrOnGetPeersResponseNotSet \<longleftrightarrow> \<not> OnGetPeersResponse dht"
    using assms
    by (auto simp: GetPeers_def Let_def split: sum.splits if_splits dest: hexDecodeString_error)
next
  assume "OnGetPeersResponse dht
        \<and> (if length infoHash = 40 then hexDecodeString infoHash else Inr infoHash) = Inl err"
  with assms show "GetPeers dht infoHash = Inl err"
    by (simp add: GetPeers_def)
next
  assume a: "OnGetPeersResponse dht
        \<and> (if length infoHash = 40 then hexDecodeString infoHash else Inr infoHash) = Inr raw"
  let ?ns = "GetNeighbors (routingTable dht) (newBitmapFromString raw) (length (routingTable dht))"
  from a assms have "GetPeers dht infoHash = Inr (map (\<lambda>no. GetPeersQuery no raw) ?ns)"
    by (simp add: GetPeers_def Let_def)
  then show "\<exists>neighbors.
              GetPeers dht infoHash = Inr (map (\<lambda>no. GetPeersQuery no raw) neighbors)
            \<and> neighbors = GetNeighbors (routingTable dht) (newBitmapFromString raw)
                            (length (routingTable dht))
            \<and> mset neighbors = mset (routingTable dht)
            \<and> sorted (map (\<lambda>no. xorDistance (newBitmapFromString (node_id no))
                                   (newBitmapFromString raw)) neighbors)"
    using GetNeighbors_all GetNeighbors_sorted by blast
qed

lemma bitmap_a: "newBitmapFromString ''aaaaaaaaaaaaaaaaaaaa'' = 555943760082735619865715406954821383947550810465"
  by (simp add: newBitmapFromString_def)
lemma bitmap_b: "newBitmapFromString ''aaaaaaaaaaaaaaaaaaab'' = 555943760082735619865715406954821383947550810466"
  by (simp add: newBitmapFromString_def)
lemma bitmap_c: "newBitmapFromString ''aaaaaaaaaaaaaaaaaaac'' = 555943760082735619865715406954821383947550810467"
  by (simp add: newBitmapFromString_def)

text \<open>
  An instance: a ready engine with one node in its table refuses without the callback, and
  with the callback sends its query to that node.
\<close>

theorem GetPeers_spec_witness:
  "GetPeers \<lparr>K = 2, Mode = StandardMode, PrimeNodes = [], OnGetPeersResponse = False, Ready = True,
       self_id = ''ABCDEFGHIJKLMNOPQRST'',
       routingTable = [\<lparr>node_id = ''aaaaaaaaaaaaaaaaaaab'', node_addr = ''10.0.0.1:6881''\<rparr>],
       transactions = 0\<rparr> ''aaaaaaaaaaaaaaaaaaaa'' = Inl ErrOnGetPeersResponseNotSet
   \<and> (\<exists>neighbors.
        GetPeers \<lparr>K = 2, Mode = StandardMode, PrimeNodes = [], OnGetPeersResponse = True, Ready = True,
           self_id = ''ABCDEFGHIJKLMNOPQRST'',
           routingTable = [\<lparr>node_id = ''aaaaaaaaaaaaaaaaaaab'', node_addr = ''10.0.0.1:6881''\<rparr>],
           transactions = 0\<rparr> ''aaaaaaaaaaaaaaaaaaaa''
          = Inr (map (\<lambda>no. GetPeersQuery no ''aaaaaaaaaaaaaaaaaaaa'') neighbors)
        \<and> mset neighbors = {#\<lparr>node_id = ''aaaaaaaaaaaaaaaaaaab'', node_addr = ''10.0.0.1:6881''\<rparr>#})"
proof -
  let ?off = "\<lparr>K = 2, Mode = StandardMode, PrimeNodes = [], OnGetPeersResponse = False, Ready = True,
       self_id = ''ABCDEFGHIJKLMNOPQRST'',
       routingTable = [\<lparr>node_id = ''aaaaaaaaaaaaaaaaaaab'', node_addr = ''10.0.0.1:6881''\<rparr>],
       transactions = 0\<rparr>"
  let ?on = "\<lparr>K = 2, Mode = StandardMode, PrimeNodes = [], OnGetPeersResponse = True, Ready = True,
       self_id = ''ABCDEFGHIJKLMNOPQRST'',
       routingTable = [\<lparr>node_id = ''aaaaaaaaaaaaaaaaaaab'', node_addr = ''10.0.0.1:6881''\<rparr>],
       transactions = 0\<rparr>"
  have r: "Ready ?off" "Ready ?on" by simp_all
  have raw: "OnGetPeersResponse ?on \<and>
      (if length ''aaaaaaaaaaaaaaaaaaaa'' = 40 then hexDecodeString ''aaaaaaaaaaaaaaaaaaaa''
       else Inr ''aaaaaaaaaaaaaaaaaaaa'') = Inr ''aaaaaaaaaaaaaaaaaaaa''"
    by simp
  from GetPeers_spec [OF r(1), of "''aaaaaaaaaaaaaaaaaaaa''"]
  have "GetPeers ?off ''aaaaaaaaaaaaaaaaaaaa'' = Inl ErrOnGetPeersResponseNotSet" by simp
  moreover from GetPeers_spec [OF r(2), of "''aaaaaaaaaaaaaaaaaaaa''" _ "''aaaaaaaaaaaaaaaaaaaa''"] raw
  have "\<exists>neighbors. GetPeers ?on ''aaaaaaaaaaaaaaaaaaaa''
          = Inr (map (\<lambda>no. GetPeersQuery no ''aaaaaaaaaaaaaaaaaaaa'') neighbors)
        \<and> mset neighbors = mset (routingTable ?on)"
    by blast
  ultimately show ?thesis by simp
qed

text \<open>
  The sentence of C5 as it was written has the queries go to the \<open>K\<close> closest nodes.
  With \<open>K = 2\<close> and three nodes in the routing table, three queries are sent, to every
  node of the table.
\<close>

theorem GetPeers_all_nodes_counterexample:
  "K \<lparr>K = 2, Mode = StandardMode, PrimeNodes = [], OnGetPeersResponse = True, Ready = True,
       self_id = ''ABCDEFGHIJKLMNOPQRST'',
       routingTable = [\<lparr>node_id = ''aaaaaaaaaaaaaaaaaaab'', node_addr = ''10.0.0.1:6881''\<rparr>,
                       \<lparr>node_id = ''aaaaaaaaaaaaaaaaaaaa'', node_addr = ''10.0.0.2:6881''\<rparr>,
                       \<lparr>node_id = ''aaaaaaaaaaaaaaaaaaac'', node_addr = ''10.0.0.3:6881''\<rparr>],
       transactions = 0\<rparr> = 2
   \<and> GetPeers \<lparr>K = 2, Mode = StandardMode, PrimeNodes = [], OnGetPeersResponse = True, Ready = True,
       self_id = ''ABCDEFGHIJKLMNOPQRST'',
       routingTable = [\<lparr>node_id = ''aaaaaaaaaaaaaaaaaaab'', node_addr = ''10.0.0.1:6881''\<rparr>,
                       \<lparr>node_id = ''aaaaaaaaaaaaaaaaaaaa'', node_addr = ''10.0.0.2:6881''\<rparr>,
                       \<lparr>node_id = ''aaaaaaaaaaaaaaaaaaac'', node_addr = ''10.0.0.3:6881''\<rparr>],
       transactions = 0\<rparr> ''aaaaaaaaaaaaaaaaaaaa''
     = Inr [GetPeersQuery \<lparr>node_id = ''aaaaaaaaaaaaaaaaaaaa'', node_addr = ''10.0.0.2:6881''\<rparr> ''aaaaaaaaaaaaaaaaaaaa'',
            GetPeersQuery \<lparr>node_id = ''aaaaaaaaaaaaaaaaaaac'', node_addr = ''10.0.0.3:6881''\<rparr> ''aaaaaaaaaaaaaaaaaaaa'',
            GetPeersQuery \<lparr>node_id = ''aaaaaaaaaaaaaaaaaaab'', node_addr = ''10.0.0.1:6881''\<rparr> ''aaaaaaaaaaaaaaaaaaaa'']"
  by (simp add: GetPeers_def GetNeighbors_def xorDistance_def bitmap_a bitmap_b bitmap_c)

section \<open>The canonical encoder\<close>

lemma formatUint_nonempty: "formatUint n \<noteq> []"
  by (subst formatUint.simps) simp

lemma digitChar_value: "d < 10 \<Longrightarrow> (of_char (digitChar d) :: nat) - 48 = d"
  by (simp add: digitChar_def)

lemma decimalValue_snoc: "decimalValue (s @ [c]) = 10 * decimalValue s + (of_char c - 48)"
  by (simp add: decimalValue_def)

lemma decimalValue_formatUint: "decimalValue (formatUint n) = n"
proof (induction n rule: formatUint.induct)
  case (1 n)
  show ?case
  proof (cases "n < 10")
    case True
    then show ?thesis
      by (subst formatUint.simps) (simp add: decimalValue_def digitChar_value)
  next
    case False
    with 1 have "decimalValue (formatUint (n div 10)) = n div 10" by simp
    with False show ?thesis
      by (subst formatUint.simps) (simp add: decimalValue_snoc digitChar_value)
  qed
qed

lemma digitChar_zero_iff: "d < 10 \<Longrightarrow> digitChar d = CHR ''0'' \<longleftrightarrow> d = 0"
  by (simp add: digitChar_def char_of_eq_iff take_bit_eq_mod)

lemma formatUint_no_leading_zero: "hd (formatUint n) = CHR ''0'' \<Longrightarrow> n = 0"
proof (induction n rule: formatUint.induct)
  case (1 n)
  show ?case
  proof (cases "n < 10")
    case True
    with "1.prems" show ?thesis
      by (subst (asm) formatUint.simps) (simp add: digitChar_zero_iff)
  next
    case False
    with "1.prems" have "hd (formatUint (n div 10)) = CHR ''0''"
      by (subst (asm) formatUint.simps) (simp add: formatUint_nonempty)
    with 1 False have "n div 10 = 0" by simp
    with False show ?thesis by simp
  qed
qed

lemma formatUint_digits: "c \<in> set (formatUint n) \<Longrightarrow> c \<in> digitChar ` {0..<10}"
proof (induction n rule: formatUint.induct)
  case (1 n)
  show ?case
  proof (cases "n < 10")
    case True
    with "1.prems" show ?thesis
      by (subst (asm) formatUint.simps) simp
  next
    case False
    with "1.prems" have "c \<in> set (formatUint (n div 10)) \<or> c = digitChar (n mod 10)"
      by (subst (asm) formatUint.simps) auto
    with 1 False show ?thesis by auto
  qed
qed

lemma formatUint_0: "formatUint 0 = ''0''"
  by (subst formatUint.simps) (simp add: digitChar_def char_of_eq_iff)

lemma bytesLess_iff: "bytesLess a b \<longleftrightarrow> a < b"
  by (induction a b rule: bytesLess.induct) (auto simp: less_char_def)

lemma perm_same_map:
  assumes "distinct (map fst d)" "mset d' = mset d"
  shows "map_of d' = map_of d"
proof -
  from assms(2) have "mset (map fst d') = mset (map fst d)" by simp
  with assms(1) have "distinct (map fst d')"
    using mset_eq_imp_distinct_iff by blast
  moreover from assms(2) have "set d' = set d" by (rule mset_eq_setD)
  ultimately show ?thesis using assms(1) by (simp add: map_of_inject_set)
qed

lemma writeEntries_shape:
  "writeEntries d ks = Inr out \<Longrightarrow>
     \<exists>vs. list_all2 (\<lambda>k v. writeBencodedValue (index_map d k) = Inr v) ks vs
        \<and> out = concat (map (\<lambda>(k, v). Itoa (int (length k)) @ '':'' @ k @ v) (zip ks vs))"
proof (induction ks arbitrary: out)
  case Nil
  then show ?case by simp
next
  case (Cons k ks)
  from Cons.prems obtain b bs where b: "writeBencodedValue (index_map d k) = Inr b"
    and bs: "writeEntries d ks = Inr bs"
    and out: "out = Itoa (int (length k)) @ '':'' @ k @ b @ bs"
    by (auto split: sum.splits)
  from Cons.IH [OF bs] obtain vs where
    vs: "list_all2 (\<lambda>k v. writeBencodedValue (index_map d k) = Inr v) ks vs"
    "bs = concat (map (\<lambda>(k, v). Itoa (int (length k)) @ '':'' @ k @ v) (zip ks vs))"
    by blast
  with b out have "list_all2 (\<lambda>k v. writeBencodedValue (index_map d k) = Inr v) (k # ks) (b # vs)
      \<and> out = concat (map (\<lambda>(k, v). Itoa (int (length k)) @ '':'' @ k @ v) (zip (k # ks) (b # vs)))"
    by simp
  then show ?case by blast
qed

lemma sorted_keys_strict:
  "distinct (map fst d) \<Longrightarrow> sorted_wrt bytesLess (sort (map fst d))"
proof -
  assume "distinct (map fst d)"
  then have "sorted_wrt (<) (sort (map fst d))"
    by (simp add: strict_sorted_iff)
  then show ?thesis
    by (rule sorted_wrt_mono_rel [rotated]) (simp add: bytesLess_iff)
qed

lemma example_encoding:
  "writeBencodedDict [(''b'', BInt 2), (''a'', BString ''x'')] = Inr ''d1:a1:x1:bi2ee''"
  by (simp add: index_map_def Itoa_def FormatInt_def formatUint.simps digitChar_def char_of_eq_iff)

lemma writeEntries_cong_value:
  "(\<And>k. k \<in> set ks \<Longrightarrow>
      writeBencodedValue (index_map d k) = writeBencodedValue (index_map d' k)) \<Longrightarrow>
   writeEntries d ks = writeEntries d' ks"
proof (induction ks)
  case Nil
  show ?case by simp
next
  case (Cons k ks)
  have "writeEntries d ks = writeEntries d' ks"
    by (rule Cons.IH) (simp add: Cons.prems)
  moreover have "writeBencodedValue (index_map d k) = writeBencodedValue (index_map d' k)"
    by (simp add: Cons.prems)
  ultimately show ?case by (simp split: sum.splits)
qed

lemma writeItems_cong:
  "list_all2 (\<lambda>v w. writeBencodedValue v = writeBencodedValue w) vs ws \<Longrightarrow>
   writeItems vs = writeItems ws"
  by (induction rule: list_all2_induct) (simp_all split: sum.splits)

lemma reordered_encoding: "reordered v w \<Longrightarrow> writeBencodedValue v = writeBencodedValue w"
proof (induction rule: reordered.induct)
  case (same v)
  show ?case by simp
next
  case (list vs ws)
  then have "list_all2 (\<lambda>v w. writeBencodedValue v = writeBencodedValue w) vs ws"
    by (simp add: list_all2_mono)
  then have "writeItems vs = writeItems ws" by (rule writeItems_cong)
  then show ?case by simp
next
  case (dict d d')
  from dict(1,2,3) have "mset (map fst d') = mset (map fst d)"
    using set_eq_iff_mset_eq_distinct [of "map fst d'" "map fst d"] by blast
  then have "mset (sort (map fst d)) = mset (map fst d')" by simp
  then have keys: "sort (map fst d') = sort (map fst d)"
    by (rule properties_for_sort) simp
  have "writeEntries d (sort (map fst d)) = writeEntries d' (sort (map fst d))"
    by (rule writeEntries_cong_value) (simp add: dict.IH)
  with keys show ?case by simp
qed

lemma perm_reordered:
  assumes "distinct (map fst d)" "mset d' = mset d"
  shows "reordered (BDict d) (BDict d')"
proof (rule reordered.dict)
  from assms(2) have m: "mset (map fst d') = mset (map fst d)" by simp
  show "distinct (map fst d)" by (rule assms(1))
  from m assms(1) show "distinct (map fst d')"
    using mset_eq_imp_distinct_iff by blast
  from m show "set (map fst d') = set (map fst d)" by (rule mset_eq_setD)
  fix k
  have "index_map d k = index_map d' k"
    using perm_same_map [OF assms] by (simp add: index_map_def)
  then show "reordered (index_map d k) (index_map d' k)"
    by (simp add: reordered.same)
qed

text \<open>
  C1. The bytes that \<^const>\<open>writeBencodedDict\<close> produces do not depend on the order in
  which the map (or any map nested in it) is iterated: two values that are the same up to
  that order are encoded alike, and any permutation of the entries of a map gives such a
  value. When the encoding succeeds it is \<open>d\<close>, then for each key in the sorted key list
  the key as \<open><len>:<bytes>\<close> followed by the encoding of its value, then \<open>e\<close>; with
  keys that are pairwise different the sorted list ascends strictly in the bytewise
  lexical order \<^const>\<open>bytesLess\<close>. A string is encoded as its length in decimal, a
  colon and its bytes; an integer as \<open>i\<close>, its decimal digits, \<open>e\<close>. The decimal
  digits carry a minus sign for a negative number and nothing else, read back as the
  number, and start with \<open>0\<close> only for the number zero, which is written \<open>0\<close>.
  The map \<open>{"b": 2, "a": "x"}\<close> is encoded as \<open>d1:a1:x1:bi2ee\<close>.
\<close>

theorem canonical_encoder:
  "(reordered (BDict dict) (BDict dict') \<longrightarrow> writeBencodedDict dict' = writeBencodedDict dict)
   \<and> (distinct (map fst dict) \<and> mset dict' = mset dict \<longrightarrow> reordered (BDict dict) (BDict dict'))
   \<and> (writeBencodedDict dict = Inr out \<longrightarrow>
        (\<exists>vs. list_all2 (\<lambda>k v. writeBencodedValue (index_map dict k) = Inr v) (sort (map fst dict)) vs
           \<and> out = ''d'' @ concat (map (\<lambda>(k, v). Itoa (int (length k)) @ '':'' @ k @ v)
                                   (zip (sort (map fst dict)) vs)) @ ''e''))
   \<and> (distinct (map fst dict) \<longrightarrow> sorted_wrt bytesLess (sort (map fst dict)))
   \<and> writeBencodedValue (BString s) = Inr (Itoa (int (length s)) @ '':'' @ s)
   \<and> writeBencodedValue (BInt i) = Inr (''i'' @ Itoa (sint i) @ ''e'')
   \<and> writeBencodedValue (BInt64 i) = Inr (''i'' @ Itoa (sint i) @ ''e'')
   \<and> Itoa n = (if n < 0 then ''-'' @ formatUint (nat (- n)) else formatUint (nat n))
   \<and> decimalValue (formatUint m) = m
   \<and> (hd (formatUint m) = CHR ''0'' \<longrightarrow> formatUint m = ''0'' \<and> m = 0)
   \<and> writeBencodedDict [(''b'', BInt 2), (''a'', BString ''x'')] = Inr ''d1:a1:x1:bi2ee''"
proof (intro conjI impI)
  assume "reordered (BDict dict) (BDict dict')"
  then have "writeBencodedValue (BDict dict) = writeBencodedValue (BDict dict')"
    by (rule reordered_encoding)
  then show "writeBencodedDict dict' = writeBencodedDict dict" by simp
next
  assume "distinct (map fst dict) \<and> mset dict' = mset dict"
  then show "reordered (BDict dict) (BDict dict')" by (simp add: perm_reordered)
next
  assume "writeBencodedDict dict = Inr out"
  then obtain entries where e: "writeEntries dict (sort (map fst dict)) = Inr entries"
    and out: "out = ''d'' @ entries @ ''e''"
    by (auto split: sum.splits)
  from writeEntries_shape [OF e] out
  show "\<exists>vs. list_all2 (\<lambda>k v. writeBencodedValue (index_map dict k) = Inr v) (sort (map fst dict)) vs
           \<and> out = ''d'' @ concat (map (\<lambda>(k, v). Itoa (int (length k)) @ '':'' @ k @ v)
                                   (zip (sort (map fst dict)) vs)) @ ''e''"
    by auto
next
  assume "distinct (map fst dict)"
  then show "sorted_wrt bytesLess (sort (map fst dict))" by (rule sorted_keys_strict)
next
  show "writeBencodedValue (BString s) = Inr (Itoa (int (length s)) @ '':'' @ s)" by simp
  show "writeBencodedValue (BInt i) = Inr (''i'' @ Itoa (sint i) @ ''e'')" by simp
  show "writeBencodedValue (BInt64 i) = Inr (''i'' @ Itoa (sint i) @ ''e'')" by (simp add: Itoa_def)
  show "Itoa n = (if n < 0 then ''-'' @ formatUint (nat (- n)) else formatUint (nat n))"
    by (simp add: Itoa_def FormatInt_def)
  show "decimalValue (formatUint m) = m" by (rule decimalValue_formatUint)
  show "writeBencodedDict [(''b'', BInt 2), (''a'', BString ''x'')] = Inr ''d1:a1:x1:bi2ee''"
    by (rule example_encoding)
next
  assume "hd (formatUint m) = CHR ''0''"
  then show "m = 0" by (rule formatUint_no_leading_zero)
  then show "formatUint m = ''0''" by (simp add: formatUint_0)
qed

text \<open>
  An instance: the map \<open>{"b": 2, "a": "x"}\<close> iterated in either order gives the same
  bytes, \<open>d1:a1:x1:bi2ee\<close>, with the key \<open>a\<close> before the key \<open>b\<close>.
\<close>

theorem canonical_encoder_witness:
  "writeBencodedDict [(''a'', BString ''x''), (''b'', BInt 2)]
     = writeBencodedDict [(''b'', BInt 2), (''a'', BString ''x'')]
   \<and> sorted_wrt bytesLess (sort (map fst [(''b'', BInt 2), (''a'', BString ''x'')]))
   \<and> (\<exists>vs. list_all2 (\<lambda>k v. writeBencodedValue (index_map [(''b'', BInt 2), (''a'', BString ''x'')] k) = Inr v)
              (sort (map fst [(''b'', BInt 2), (''a'', BString ''x'')])) vs
         \<and> ''d1:a1:x1:bi2ee'' = ''d'' @ concat (map (\<lambda>(k, v). Itoa (int (length k)) @ '':'' @ k @ v)
                                   (zip (sort (map fst [(''b'', BInt 2), (''a'', BString ''x'')])) vs)) @ ''e'')"
proof -
  let ?d = "[(''b'', BInt 2), (''a'', BString ''x'')]"
  let ?d' = "[(''a'', BString ''x''), (''b'', BInt 2)]"
  have p: "distinct (map fst ?d) \<and> mset ?d' = mset ?d" by simp
  have e: "writeBencodedDict ?d = Inr ''d1:a1:x1:bi2ee''"
    using canonical_encoder by blast
  from p canonical_encoder [of ?d ?d'] have "reordered (BDict ?d) (BDict ?d')" by blast
  with canonical_encoder [of ?d ?d'] have "writeBencodedDict ?d' = writeBencodedDict ?d" by blast
  moreover from p canonical_encoder [of ?d] have "sorted_wrt bytesLess (sort (map fst ?d))" by blast
  moreover from e canonical_encoder [of ?d _ "''d1:a1:x1:bi2ee''"]
  have "\<exists>vs. list_all2 (\<lambda>k v. writeBencodedValue (index_map ?d k) = Inr v) (sort (map fst ?d)) vs
         \<and> ''d1:a1:x1:bi2ee'' = ''d'' @ concat (map (\<lambda>(k, v). Itoa (int (length k)) @ '':'' @ k @ v)
                                   (zip (sort (map fst ?d)) vs)) @ ''e''"
    by blast
  ultimately show ?thesis by blast
qed

section \<open>The info-hash\<close>

lemma absorb_append:
  "absorb s (a @ b) = (case absorb s a of (s', r) \<Rightarrow> absorb s' (r @ b))"
proof (induction s a rule: absorb.induct)
  case (1 s bs)
  show ?case
  proof (cases "64 \<le> length bs")
    case True
    then have "absorb s (bs @ b) = absorb (sha1_block s (take 64 bs)) (drop 64 bs @ b)"
      by (subst absorb.simps) simp
    also have "\<dots> = (case absorb (sha1_block s (take 64 bs)) (drop 64 bs) of (s', r) \<Rightarrow> absorb s' (r @ b))"
      using True by (rule "1.IH")
    also have "absorb (sha1_block s (take 64 bs)) (drop 64 bs) = absorb s bs"
      using True by (subst (2) absorb.simps) simp
    finally show ?thesis .
  next
    case False
    then have "absorb s bs = (s, bs)" by (subst absorb.simps) simp
    then show ?thesis by simp
  qed
qed

lemma hasher_is_SHA1: "sha1_Sum (sha1_Write sha1_New msg) [] = SHA1 msg"
proof -
  obtain s' r where a: "absorb sha1_init msg = (s', r)" by (cases "absorb sha1_init msg")
  then have "sha1_Write sha1_New msg = \<lparr>dig_h = s', dig_x = r, dig_len = length msg\<rparr>"
    by (simp add: sha1_Write_def sha1_New_def)
  then have "sha1_Sum (sha1_Write sha1_New msg) [] =
      sha1_output (fst (absorb s' (r @ sha1_padding (length msg))))"
    by (simp add: sha1_Sum_def)
  also have "absorb s' (r @ sha1_padding (length msg)) = absorb sha1_init (msg @ sha1_padding (length msg))"
    using absorb_append [of sha1_init msg "sha1_padding (length msg)"] by (simp add: a)
  finally show ?thesis by (simp add: SHA1_def)
qed

lemma length_sha1_output: "length (sha1_output s) = 20"
  by (cases s rule: sha1_output.cases) (simp add: be_bytes32_def)

lemma length_SHA1: "length (SHA1 msg) = 20"
  by (simp add: SHA1_def length_sha1_output)

lemma length_hexEncodeToString: "length (hexEncodeToString src) = 2 * length src"
  by (induction src) (simp_all add: hexEncodeToString_def)

lemma hextable_nth: "n < 16 \<Longrightarrow> hextable ! n \<in> set hextable \<and> fromHexChar (hextable ! n) = Some n"
proof -
  assume "n < 16"
  then have "n \<in> set [0..<16]" by simp
  then have "n \<in> {0, 1, 2, 3, 4, 5, 6, 7, 8, 9, 10, 11, 12, 13, 14, 15}"
    by (simp add: upt_rec numeral_eq_Suc) 
  then show ?thesis
    by (auto simp: hextable_def fromHexChar_def)
qed

lemma hexEncodeToString_chars: "set (hexEncodeToString src) \<subseteq> set hextable"
proof -
  have "(of_char c :: nat) div 16 < 16" "(of_char c :: nat) mod 16 < 16" for c
    using nat_of_char_less_256 [of c] by (simp_all add: less_mult_imp_div_less)
  then show ?thesis
    by (auto simp: hexEncodeToString_def hextable_nth)
qed

lemma hex_roundtrip: "hexDecodeString (hexEncodeToString src) = Inr src"
proof (induction src)
  case Nil
  show ?case by (simp add: hexEncodeToString_def)
next
  case (Cons c src)
  have b: "(of_char c :: nat) div 16 < 16" "(of_char c :: nat) mod 16 < 16"
    using nat_of_char_less_256 [of c] by (simp_all add: less_mult_imp_div_less)
  have "hexEncodeToString (c # src) =
      hextable ! ((of_char c :: nat) div 16) # hextable ! ((of_char c :: nat) mod 16) # hexEncodeToString src"
    by (simp add: hexEncodeToString_def)
  with Cons b show ?case
    by (simp add: hextable_nth)
qed

text \<open>
  C2. For every info dictionary that the encoder accepts, \<^const>\<open>calculateInfoHash\<close>
  returns the hexadecimal encoding of the SHA-1 digest of its canonical encoding: 40
  characters, all of them among \<open>0123456789abcdef\<close>, which decode back to the 20 bytes
  of the digest. When the encoder fails, its error is returned.
\<close>

theorem calculateInfoHash_spec:
  "(writeBencodedDict info = Inr enc \<longrightarrow>
      calculateInfoHash info = Inr (hexEncodeToString (SHA1 enc))
    \<and> length (hexEncodeToString (SHA1 enc)) = 40
    \<and> set (hexEncodeToString (SHA1 enc)) \<subseteq> set ''0123456789abcdef''
    \<and> hexDecodeString (hexEncodeToString (SHA1 enc)) = Inr (SHA1 enc))
   \<and> (writeBencodedDict info = Inl err \<longrightarrow> calculateInfoHash info = Inl err)"
proof (intro conjI impI)
  assume "writeBencodedDict info = Inr enc"
  then show "calculateInfoHash info = Inr (hexEncodeToString (SHA1 enc))"
    by (simp add: calculateInfoHash_def hasher_is_SHA1 del: writeBencodedDict.simps)
next
  show "length (hexEncodeToString (SHA1 enc)) = 40"
    by (simp add: length_hexEncodeToString length_SHA1)
  show "set (hexEncodeToString (SHA1 enc)) \<subseteq> set ''0123456789abcdef''"
    using hexEncodeToString_chars [of "SHA1 enc"] by (simp only: hextable_def)
  show "hexDecodeString (hexEncodeToString (SHA1 enc)) = Inr (SHA1 enc)"
    by (rule hex_roundtrip)
next
  assume "writeBencodedDict info = Inl err"
  then show "calculateInfoHash info = Inl err"
    by (simp add: calculateInfoHash_def del: writeBencodedDict.simps)
qed


text \<open>
  The info-hash of \<open>{"b": 2, "a": "x"}\<close>, computed by rewriting: the padded encoding
  is one block, whose 80 rounds are evaluated in four parts.
\<close>

lemma word32_mod: "(word_of_int (k mod 4294967296) :: 32 word) = word_of_int k"
  by (simp add: word_of_int_eq_iff take_bit_eq_mod)

lemma norm32:
  "(4294967296 :: int) \<le> numeral n \<Longrightarrow>
     (numeral n :: 32 word) = word_of_int (numeral n mod 4294967296)"
  by (simp only: word32_mod word_of_int_numeral)

lemma replicate_numeral: "replicate (numeral k) x = x # replicate (pred_numeral k) x"
  by (simp add: numeral_eq_Suc)

lemma example_words:
  "words16 (''d1:a1:x1:bi2ee'' @ sha1_padding 14)
     = [1680947809, 825915441, 979527986, 1701150720, 0, 0, 0, 0, 0, 0, 0, 0, 0, 0, 0, 112]"
  by (simp add: sha1_padding_def be_bytes64_def be32_def replicate_numeral char_of_def)

lemma example_length: "length (''d1:a1:x1:bi2ee'' @ sha1_padding 14) = 64"
  by (simp add: sha1_padding_def be_bytes64_def)

lemma rounds_split:
  "t \<le> m \<Longrightarrow> m \<le> n \<Longrightarrow>
     rounds t n win s = rounds m n (fst (rounds t m win s)) (snd (rounds t m win s))"
proof (induction t m win s rule: rounds.induct)
  case (1 t m win a b c d e)
  show ?case
  proof (cases "t < m")
    case True
    let ?w = "tl win @ [RotateLeft32 (win ! 13 XOR win ! 8 XOR win ! 2 XOR win ! 0) 1]"
    let ?s = "(RotateLeft32 a 5 + sha1_f t b c d + e + sha1_k t + win ! 0, a, RotateLeft32 b 30, c, d)"
    from True "1.prems" have "rounds t n win (a, b, c, d, e) = rounds (t + 1) n ?w ?s"
      by (subst rounds.simps) simp
    also from True "1.prems" have "\<dots> = rounds m n (fst (rounds (t + 1) m ?w ?s)) (snd (rounds (t + 1) m ?w ?s))"
      by (intro "1.IH") simp_all
    also from True have "rounds (t + 1) m ?w ?s = rounds t m win (a, b, c, d, e)"
      by (subst (2) rounds.simps) simp
    finally show ?thesis .
  next
    case False
    with "1.prems" have "t = m" by simp
    then have "rounds t m win (a, b, c, d, e) = (win, (a, b, c, d, e))"
      by (subst rounds.simps) simp
    with \<open>t = m\<close> show ?thesis by simp
  qed
qed

lemma example_rounds_0:
  "rounds 0 20
     [1680947809, 825915441, 979527986, 1701150720, 0, 0, 0, 0, 0, 0, 0, 0, 0, 0, 0, 112]
     sha1_init
   = ([1367335109, 3918112008, 1728879259, 2734670186, 2858288988, 2674316787, 2893424605, 867210274, 2620549741, 2348746058, 3493154879, 753186347, 3548834921, 2832495046, 1246971759, 1953701917],
      (4194587520, 2960763393, 1188536714, 851923492, 666928951))"
  by (simp add: rounds.simps sha1_init_def sha1_f_def sha1_k_def RotateLeft32_def norm32)

lemma example_rounds_20:
  "rounds 20 40
     [1367335109, 3918112008, 1728879259, 2734670186, 2858288988, 2674316787, 2893424605, 867210274, 2620549741, 2348746058, 3493154879, 753186347, 3548834921, 2832495046, 1246971759, 1953701917]
     (4194587520, 2960763393, 1188536714, 851923492, 666928951)
   = ([2150957263, 2891438011, 2775814366, 2551407476, 3405011975, 800644704, 2467432912, 3436491444, 1823533906, 3351584609, 1304251870, 717867369, 3026499213, 3191749378, 3616421753, 4170326629],
      (3275787647, 1664668331, 2720313570, 1637338475, 4157440071))"
  by (simp add: rounds.simps sha1_init_def sha1_f_def sha1_k_def RotateLeft32_def norm32)

lemma example_rounds_40:
  "rounds 40 60
     [2150957263, 2891438011, 2775814366, 2551407476, 3405011975, 800644704, 2467432912, 3436491444, 1823533906, 3351584609, 1304251870, 717867369, 3026499213, 3191749378, 3616421753, 4170326629]
     (3275787647, 1664668331, 2720313570, 1637338475, 4157440071)
   = ([1262204393, 3490062887, 2610067471, 1903195315, 1026951248, 2097360722, 2079429194, 2554865550, 2879665822, 3669447189, 2005520630, 3568481228, 2055288839, 1323327469, 2723390804, 2924849317],
      (3633502171, 1322607243, 1271040633, 3807748741, 3694790085))"
  by (simp add: rounds.simps sha1_init_def sha1_f_def sha1_k_def RotateLeft32_def norm32)

lemma example_rounds_60:
  "rounds 60 80
     [1262204393, 3490062887, 2610067471, 1903195315, 1026951248, 2097360722, 2079429194, 2554865550, 2879665822, 3669447189, 2005520630, 3568481228, 2055288839, 1323327469, 2723390804, 2924849317]
     (3633502171, 1322607243, 1271040633, 3807748741, 3694790085)
   = ([516408173, 2864090706, 677807902, 3839507623, 981484064, 713837273, 776308892, 2379208733, 3643943375, 3364741900, 3628295930, 1093795020, 3461214268, 1337875214, 512183883, 503564537],
      (1592223274, 14617117, 4045567461, 1049108260, 2764306891))"
  by (simp add: rounds.simps sha1_init_def sha1_f_def sha1_k_def RotateLeft32_def norm32)

lemma example_rounds:
  "rounds 0 80 [1680947809, 825915441, 979527986, 1701150720, 0, 0, 0, 0, 0, 0, 0, 0, 0, 0, 0, 112] sha1_init
     = ([516408173, 2864090706, 677807902, 3839507623, 981484064, 713837273, 776308892, 2379208733, 3643943375, 3364741900, 3628295930, 1093795020, 3461214268, 1337875214, 512183883, 503564537],
        (1592223274, 14617117, 4045567461, 1049108260, 2764306891))"
  by (simp only: rounds_split [of 0 20 80] rounds_split [of 20 40 80] rounds_split [of 40 60 80]
      example_rounds_0 example_rounds_20 example_rounds_40 example_rounds_60 fst_conv snd_conv)

lemma example_digest:
  "hexEncodeToString (SHA1 ''d1:a1:x1:bi2ee'') = ''c62c892bf0acb5a689dd52e34eba739a6896dbbb''"
proof -
  let ?m = "''d1:a1:x1:bi2ee'' @ sha1_padding 14"
  have "absorb sha1_init ?m = absorb (sha1_block sha1_init (take 64 ?m)) (drop 64 ?m)"
    by (subst absorb.simps) (simp only: example_length, simp)
  moreover have "take 64 ?m = ?m" "drop 64 ?m = []"
    by (simp_all only: example_length take_all drop_all order_refl)
  moreover have "absorb (sha1_block sha1_init ?m) [] = (sha1_block sha1_init ?m, [])"
    by (subst absorb.simps) simp
  moreover have "sha1_block sha1_init ?m
      = (3324807467, 4037850534, 2312983267, 1320842138, 1754717115)"
    by (simp only: sha1_block_def example_words example_rounds snd_conv) (simp add: sha1_init_def norm32)
  ultimately have "absorb sha1_init ?m
      = ((3324807467, 4037850534, 2312983267, 1320842138, 1754717115), [])"
    by (simp only:)
  moreover have "length ''d1:a1:x1:bi2ee'' = 14" by simp
  ultimately have "SHA1 ''d1:a1:x1:bi2ee''
      = sha1_output (3324807467, 4037850534, 2312983267, 1320842138, 1754717115)"
    by (simp only: SHA1_def fst_conv)
  then show ?thesis
    by (simp add: be_bytes32_def hexEncodeToString_def hextable_def char_of_def)
qed

text \<open>
  An instance: the info-hash of \<open>{"b": 2, "a": "x"}\<close> is the SHA-1 digest of
  \<open>d1:a1:x1:bi2ee\<close> in hexadecimal.
\<close>

theorem calculateInfoHash_spec_witness:
  "calculateInfoHash [(''b'', BInt 2), (''a'', BString ''x'')]
     = Inr ''c62c892bf0acb5a689dd52e34eba739a6896dbbb''"
proof -
  have "writeBencodedDict [(''b'', BInt 2), (''a'', BString ''x'')] = Inr ''d1:a1:x1:bi2ee''"
    by (rule example_encoding)
  with calculateInfoHash_spec [of "[(''b'', BInt 2), (''a'', BString ''x'')]" "''d1:a1:x1:bi2ee''"]
  have "calculateInfoHash [(''b'', BInt 2), (''a'', BString ''x'')]
      = Inr (hexEncodeToString (SHA1 ''d1:a1:x1:bi2ee''))"
    by blast
  then show ?thesis by (simp only: example_digest)
qed

section \<open>The ingest pipeline\<close>















text \<open>
  The zero time is not the start of the Unix epoch: \<^verbatim>\<open>time.Unix(s, 0)\<close> is the zero time
  only for \<open>s = -62135596800\<close>.
\<close>

lemma IsZero_Unix: "IsZero (Unix s) \<longleftrightarrow> s = - 62135596800"
  using minus_equation_iff [of s "62135596800"]
  by (auto simp: IsZero_def Unix_def add_eq_0_iff)








end
